theory Spec2Isabelle
  imports Complex_Main "HOL-Library.Multiset" "HOL-Library.Product_Lexorder"
    "HOL-Library.Monad_Syntax"
begin

section \<open>Python values\<close>

text \<open>
  A Python \<open>str\<close> is a sequence of Unicode code points, so it is modelled as a list of
  code points; \<open>ascii\<close> reads an ASCII literal. A float is the real number it stands
  for (no infinities or NaN). The line builder, the scorer and the level assigner are
  modelled in exact arithmetic. The candidate selector compares a score with a computed
  threshold, and a rounding decides whether a line on the threshold is kept: there the
  rounding of a real number to the nearest float is the parameter \<open>rnd\<close>. A Python call
  that can raise returns an \<open>option\<close>: \<open>None\<close> is the raised exception.
\<close>

type_synonym ustr = "nat list"

definition ascii :: "string \<Rightarrow> ustr" where
  "ascii s = map of_char s"

text \<open>The code points for which \<open>str.isspace\<close> holds; \<open>split\<close> and \<open>strip\<close> use them.\<close>

definition isspace :: "nat \<Rightarrow> bool" where
  "isspace c \<longleftrightarrow> c \<in> set [9, 10, 11, 12, 13, 28, 29, 30, 31, 32, 133, 160, 5760,
     8192, 8193, 8194, 8195, 8196, 8197, 8198, 8199, 8200, 8201, 8202,
     8232, 8233, 8239, 8287, 12288]"

definition lstrip :: "ustr \<Rightarrow> ustr" where
  "lstrip s = dropWhile isspace s"

definition rstrip :: "ustr \<Rightarrow> ustr" where
  "rstrip s = rev (dropWhile isspace (rev s))"

definition strip :: "ustr \<Rightarrow> ustr" where
  "strip s = rstrip (lstrip s)"

text \<open>\<open>s.split()\<close>: the maximal runs of non-whitespace; \<open>cur\<close> is the run being read.\<close>

fun split_aux :: "ustr \<Rightarrow> ustr \<Rightarrow> ustr list" where
  "split_aux cur [] = (if cur = [] then [] else [cur])"
| "split_aux cur (c # cs) =
     (if isspace c then (if cur = [] then split_aux [] cs else cur # split_aux [] cs)
      else split_aux (cur @ [c]) cs)"

definition split :: "ustr \<Rightarrow> ustr list" where
  "split s = split_aux [] s"

fun join :: "ustr \<Rightarrow> ustr list \<Rightarrow> ustr" where
  "join sep [] = []"
| "join sep [x] = x"
| "join sep (x # y # ys) = x @ sep @ join sep (y # ys)"

text \<open>\<open>" ".join(s.split())\<close>, the whitespace collapse of the title detector.\<close>

definition collapse :: "ustr \<Rightarrow> ustr" where
  "collapse s = join (ascii '' '') (split s)"

definition endswith :: "ustr \<Rightarrow> ustr \<Rightarrow> bool" where
  "endswith s suf \<longleftrightarrow> length suf \<le> length s \<and> drop (length s - length suf) s = suf"

text \<open>\<open>needle in hay\<close> on strings.\<close>

fun substr_in :: "ustr \<Rightarrow> ustr \<Rightarrow> bool" where
  "substr_in needle [] = (needle = [])"
| "substr_in needle (c # cs) =
     (take (length needle) (c # cs) = needle \<or> substr_in needle cs)"

text \<open>\<open>round(x)\<close> on a float: to the nearest integer, a tie to the even one.\<close>

definition py_round :: "real \<Rightarrow> int" where
  "py_round x =
     (let f = \<lfloor>x\<rfloor>; d = x - of_int f
      in if d < 1 / 2 then f else if 1 / 2 < d then f + 1
         else if even f then f else f + 1)"

text \<open>\<open>min\<close> and \<open>max\<close> of a sequence raise ValueError when it is empty.\<close>

definition py_min :: "real list \<Rightarrow> real option" where
  "py_min xs = (case xs of [] \<Rightarrow> None | x # r \<Rightarrow> Some (fold min r x))"

definition py_max :: "real list \<Rightarrow> real option" where
  "py_max xs = (case xs of [] \<Rightarrow> None | x # r \<Rightarrow> Some (fold max r x))"

subsection \<open>The \<open>statistics\<close> module\<close>

text \<open>
  \<open>median\<close> and \<open>mean\<close> raise StatisticsError on no data, \<open>stdev\<close> on fewer than two
  values. \<open>stdev\<close> is the sample standard deviation (divisor \<open>n - 1\<close>), here its exact
  value.
\<close>

definition median :: "real list \<Rightarrow> real option" where
  "median xs =
     (let s = sort xs; n = length s
      in if n = 0 then None
         else if odd n then Some (s ! (n div 2))
         else Some ((s ! (n div 2 - 1) + s ! (n div 2)) / 2))"

definition stdev :: "real list \<Rightarrow> real option" where
  "stdev xs =
     (if length xs < 2 then None
      else let m = sum_list xs / real (length xs)
           in Some (sqrt (sum_list (map (\<lambda>x. (x - m)\<^sup>2) xs) / real (length xs - 1))))"

text \<open>
  The floats \<open>statistics.mean\<close> and \<open>statistics.stdev\<close> return. Both work on the exact
  values of their data and round once at the end (\<open>_convert\<close> of the exact quotient,
  \<open>_float_sqrt_of_frac\<close> of the exact sample variance, as in CPython 3.11).
\<close>

definition mean_float :: "(real \<Rightarrow> real) \<Rightarrow> real list \<Rightarrow> real option" where
  "mean_float rnd xs =
     (if xs = [] then None else Some (rnd (sum_list xs / real (length xs))))"

definition stdev_float :: "(real \<Rightarrow> real) \<Rightarrow> real list \<Rightarrow> real option" where
  "stdev_float rnd xs = map_option rnd (stdev xs)"

section \<open>The numbering pattern\<close>

text \<open>
  The regular expressions \<open>NUM_PAT\<close> is built from, and Python's backtracking matcher
  for them: \<open>rx_run r s\<close> lists, in the order the matcher tries them, the rests of \<open>s\<close>
  after each way \<open>r\<close> can match a prefix of \<open>s\<close>. Repetition is greedy: one more
  iteration is tried before stopping. An iteration that consumes nothing is not
  repeated (every repeated expression of \<open>NUM_PAT\<close> consumes a character), so the length
  of the string bounds the number of iterations.
\<close>

datatype rx = Lit nat | Cls "nat list" | Seq rx rx | Alt rx rx | Star rx

definition Plus :: "rx \<Rightarrow> rx" where
  "Plus a = Seq a (Star a)"

primrec star_run :: "(ustr \<Rightarrow> ustr list) \<Rightarrow> nat \<Rightarrow> ustr \<Rightarrow> ustr list" where
  "star_run f 0 s = [s]"
| "star_run f (Suc n) s =
     concat (map (star_run f n) (filter (\<lambda>r. length r < length s) (f s))) @ [s]"

primrec rx_run :: "rx \<Rightarrow> ustr \<Rightarrow> ustr list" where
  "rx_run (Lit c) s = (case s of [] \<Rightarrow> [] | x # t \<Rightarrow> if x = c then [t] else [])"
| "rx_run (Cls cs) s = (case s of [] \<Rightarrow> [] | x # t \<Rightarrow> if x \<in> set cs then [t] else [])"
| "rx_run (Seq a b) s = concat (map (rx_run b) (rx_run a s))"
| "rx_run (Alt a b) s = rx_run a s @ rx_run b s"
| "rx_run (Star a) s = star_run (rx_run a) (length s) s"

text \<open>
  \<^verbatim>\<open>NUM_PAT = re.compile(r"^(?P<num>([0-9]+(\.[0-9]+)*|[IVXLCDM]+|<U+7B2C>[...]+<U+7AE0>))\\b")\<close>
  The group \<open>num\<close> is \<open>num_rx\<close>, its three alternatives \<open>decimal_rx\<close>, \<open>roman_rx\<close> and
  \<open>cjk_rx\<close>; the CJK characters are written as code points
  (U+7B2C, then one or more of the twelve numerals of \<open>kanji\<close>, then U+7AE0). In the raw string the
  pattern ends with \<^verbatim>\<open>\\b\<close>, which is an escaped backslash followed by
  the letter b: \<open>tail_rx\<close> is these two literal characters (code points 92 and 98).
\<close>

definition digit :: rx where
  "digit = Cls (ascii ''0123456789'')"

definition kanji :: "nat list" where
  "kanji = [19968, 20108, 19977, 22235, 20116, 20845, 19971, 20843, 20061, 21313, 30334, 21315]"

definition decimal_rx :: rx where
  "decimal_rx = Seq (Plus digit) (Star (Seq (Lit 46) (Plus digit)))"

definition roman_rx :: rx where
  "roman_rx = Plus (Cls (ascii ''IVXLCDM''))"

definition cjk_rx :: rx where
  "cjk_rx = Seq (Lit 31532) (Seq (Plus (Cls kanji)) (Lit 31456))"

definition num_rx :: rx where
  "num_rx = Alt decimal_rx (Alt roman_rx cjk_rx)"

definition tail_rx :: rx where
  "tail_rx = Seq (Lit 92) (Lit 98)"

text \<open>
  \<open>NUM_PAT.match(text)\<close>: the first way to match the group after which the tail
  matches too; the result is \<open>m.group("num")\<close>, and \<open>None\<close> is no match.
\<close>

definition NUM_PAT_match :: "ustr \<Rightarrow> ustr option" where
  "NUM_PAT_match text =
     (case filter (\<lambda>r. rx_run tail_rx r \<noteq> []) (rx_run num_rx text) of
        [] \<Rightarrow> None
      | r # _ \<Rightarrow> Some (take (length text - length r) text))"

section \<open>Words and lines\<close>

text \<open>
  A word as \<open>page.extract_words\<close> returns it; \<open>fontname\<close> and \<open>size\<close> are read with
  \<open>w.get\<close>, so they may be absent.
\<close>

record word =
  w_text :: ustr
  w_x0 :: real
  w_x1 :: real
  w_top :: real
  w_bottom :: real
  w_fontname :: "ustr option"
  w_size :: "real option"

record line =
  page :: nat
  text_l :: ustr
  font_names :: "ustr list"
  font_sizes :: "real list"
  x0 :: real
  x1 :: real
  top_l :: real
  bottom :: real
  is_boldish :: bool
  is_all_caps :: bool
  avg_font_size :: real
  leading :: real
  indent :: real

text \<open>\<open>score_lines\<close> adds the key \<open>score\<close> to each line.\<close>

record scored = line +
  score :: real

definition with_score :: "line \<Rightarrow> real \<Rightarrow> scored" where
  "with_score l s = line.extend l (scored.fields s)"

section \<open>Line builder\<close>

text \<open>
  The grouping loop of \<open>extract_lines\<close> over the sorted words: \<open>lines\<close> are the closed
  groups, \<open>cur\<close> is \<open>current_line\<close>, \<open>last_y\<close> the running average of \<open>top\<close>.
\<close>

fun group_words :: "word list list \<Rightarrow> word list \<Rightarrow> real option \<Rightarrow> word list \<Rightarrow> word list list" where
  "group_words lines cur last_y [] = (if cur \<noteq> [] then lines @ [cur] else lines)"
| "group_words lines cur last_y (w # ws) =
     (case last_y of
        None \<Rightarrow> group_words lines (cur @ [w]) (Some (w_top w)) ws
      | Some y \<Rightarrow>
          if \<bar>w_top w - y\<bar> \<le> 2.5
          then group_words lines (cur @ [w]) (Some ((y + w_top w) / 2)) ws
          else group_words (lines @ [cur]) [w] (Some (w_top w)) ws)"

text \<open>Line 62 of the source: the three spellings are matched as they are written.\<close>

definition boldish :: "ustr list \<Rightarrow> bool" where
  "boldish fns \<longleftrightarrow>
     list_ex (\<lambda>fn. substr_in (ascii ''Bold'') fn \<or> substr_in (ascii ''bold'') fn
                  \<or> substr_in (ascii ''Black'') fn) fns"

text \<open>
  The features of one group of words. \<open>isupper\<close> is \<open>str.isupper\<close>, which reads the
  Unicode character database and is a parameter here; \<open>wds\<close> are all words of the page.
\<close>

definition build_line ::
  "(ustr \<Rightarrow> bool) \<Rightarrow> nat \<Rightarrow> word list \<Rightarrow> real option \<Rightarrow> word list \<Rightarrow> line option" where
  "build_line isupper page_num wds prev_bottom grp =
     (let text = strip (join (ascii '' '') (map w_text grp));
          fnames = map (\<lambda>w. case w_fontname w of None \<Rightarrow> [] | Some f \<Rightarrow> f) grp;
          fsizes = map (\<lambda>w. case w_size w of None \<Rightarrow> 0 | Some z \<Rightarrow> z) grp
      in do {
        x0v \<leftarrow> py_min (map w_x0 grp);
        x1v \<leftarrow> py_max (map w_x1 grp);
        topv \<leftarrow> py_min (map w_top grp);
        bottomv \<leftarrow> py_max (map w_bottom grp);
        margin \<leftarrow> py_min (map w_x0 wds);
        Some \<lparr>page = page_num, text_l = text, font_names = fnames, font_sizes = fsizes,
              x0 = x0v, x1 = x1v, top_l = topv, bottom = bottomv,
              is_boldish = boldish fnames,
              is_all_caps = (isupper text \<and> 2 < length text),
              avg_font_size = (if fsizes \<noteq> [] then sum_list fsizes / real (length fsizes) else 0),
              leading = (case prev_bottom of None \<Rightarrow> 0 | Some b \<Rightarrow> topv - b),
              indent = x0v - margin\<rparr>
      })"

fun line_dicts ::
  "(ustr \<Rightarrow> bool) \<Rightarrow> nat \<Rightarrow> word list \<Rightarrow> real option \<Rightarrow> word list list \<Rightarrow> line list option" where
  "line_dicts isupper page_num wds prev_bottom [] = Some []"
| "line_dicts isupper page_num wds prev_bottom (grp # grps) =
     do {
       l \<leftarrow> build_line isupper page_num wds prev_bottom grp;
       rest \<leftarrow> line_dicts isupper page_num wds (Some (bottom l)) grps;
       Some (l # rest)
     }"

text \<open>\<open>sorted\<close> is stable, as \<open>sort_key\<close> is; the key is the pair compared lexicographically.\<close>

definition extract_lines :: "(ustr \<Rightarrow> bool) \<Rightarrow> word list \<Rightarrow> nat \<Rightarrow> line list option" where
  "extract_lines isupper wds page_num =
     (if wds = [] then Some []
      else line_dicts isupper page_num wds None
             (group_words [] [] None (sort_key (\<lambda>w. (w_top w, w_x0 w)) wds)))"

section \<open>Header/footer filter and line merger\<close>

definition drop_repeating_headers :: "line list \<Rightarrow> line list" where
  "drop_repeating_headers lines = lines"

definition merge_wrapped_heading_lines :: "line list \<Rightarrow> line list" where
  "merge_wrapped_heading_lines lines = lines"

section \<open>Heading scorer\<close>

definition page_height_hint :: "line \<Rightarrow> real" where
  "page_height_hint l = max (bottom l + 50) 792"

text \<open>The body of the scoring loop, for one line.\<close>

definition line_score :: "real \<Rightarrow> real \<Rightarrow> real \<Rightarrow> line \<Rightarrow> real" where
  "line_score median_size stdev_size median_leading l =
     (let size_z = (if stdev_size \<noteq> 0 then (avg_font_size l - median_size) / stdev_size else 0);
          len_tokens = length (split (text_l l));
          gap_above_ratio =
            (if median_leading \<noteq> 0 \<and> leading l \<noteq> 0 then leading l / median_leading else 1)
      in 0 + size_z * 2
         + (if is_boldish l then 1 else 0)
         + (if 5 < len_tokens \<and> len_tokens < 25 then 1
            else if len_tokens \<le> 5 then - 0.25 else 0)
         + (if NUM_PAT_match (text_l l) \<noteq> None then 1.5 else 0)
         + (if 1.5 < gap_above_ratio then 0.75 else 0)
         + (if endswith (rstrip (text_l l)) (ascii '':'') then 0.25 else 0)
         + (if is_all_caps l then 0.5 else 0)
         + (if \<bar>indent l\<bar> < 5 then 0.5 else 0)
         + (if page l = 1 \<and> top_l l < page_height_hint l * 0.25 then 1 else 0))"

definition score_lines :: "line list \<Rightarrow> scored list option" where
  "score_lines lines =
     (if lines = [] then Some []
      else
        let sizes = filter (\<lambda>z. 0 < z) (map avg_font_size lines);
            font_sizes = (if sizes = [] then [10] else sizes);
            leadings = filter (\<lambda>g. 0 < g) (map leading lines)
        in do {
          median_size \<leftarrow> median font_sizes;
          stdev_size \<leftarrow> (if 1 < length font_sizes then stdev font_sizes else Some 1);
          median_leading \<leftarrow> (if leadings \<noteq> [] then median leadings else Some 0);
          min_x0 \<leftarrow> py_min (map x0 lines);
          Some (map (\<lambda>l. with_score l (line_score median_size stdev_size median_leading l)) lines)
        })"

section \<open>Candidate selector\<close>

text \<open>
  \<open>mean + stdev\<close> is a float addition: the exact sum, rounded. (With the integer 0 for
  \<open>stdev\<close> the sum is the mean itself.)
\<close>

definition scored_threshold :: "(real \<Rightarrow> real) \<Rightarrow> scored list \<Rightarrow> real option" where
  "scored_threshold rnd sc =
     (let scores = map score sc
      in if scores = [] then Some 0
         else do {
           m \<leftarrow> mean_float rnd scores;
           sd \<leftarrow> (if 1 < length scores then stdev_float rnd scores else Some 0);
           Some (rnd (m + sd))
         })"

text \<open>Line 20 of the source, the comprehension in \<open>process_pdf\<close>.\<close>

definition candidates :: "(real \<Rightarrow> real) \<Rightarrow> scored list \<Rightarrow> scored list option" where
  "candidates rnd sc =
     (if sc = [] then Some []
      else do {
        t \<leftarrow> scored_threshold rnd sc;
        Some (filter (\<lambda>l. t \<le> score l) sc)
      })"

section \<open>Title detector\<close>

text \<open>
  Step 1. \<open>meta\<close> is the metadata title (\<open>None\<close> when the document has none or cannot
  be read); \<open>lower\<close> is \<open>str.lower\<close>, a parameter as \<open>isupper\<close> is.
\<close>

definition title_meta :: "(ustr \<Rightarrow> ustr) \<Rightarrow> ustr option \<Rightarrow> scored list \<Rightarrow> ustr option" where
  "title_meta lower meta sc =
     (let got = (case meta of None \<Rightarrow> [] | Some t \<Rightarrow> t);
          meta_title = (if got \<noteq> [] then strip got else [])
      in if meta_title \<noteq> []
            \<and> list_ex (\<lambda>l. substr_in (lower meta_title) (lower (text_l l))) (take 20 sc)
         then Some (collapse meta_title) else None)"

text \<open>\<open>max(page1, key=...)\<close> keeps the first of the largest; \<open>b\<close> is the best so far.\<close>

fun max_score :: "scored \<Rightarrow> scored list \<Rightarrow> scored" where
  "max_score b [] = b"
| "max_score b (l # ls) = max_score (if score b < score l then l else b) ls"

text \<open>Step 2: the best candidate of page 1.\<close>

definition title_page1 :: "scored list \<Rightarrow> ustr option" where
  "title_page1 cands =
     (case filter (\<lambda>l. page l = 1) cands of
        [] \<Rightarrow> None
      | l # ls \<Rightarrow>
          let best = max_score l ls
          in if 0 < score best then Some (collapse (text_l best)) else None)"

text \<open>Step 3: the first large centred line of page 1. The outer \<open>None\<close> is an exception.\<close>

definition title_centered :: "scored list \<Rightarrow> ustr option option" where
  "title_centered sc =
     (let page1_lines = filter (\<lambda>l. page l = 1) sc
      in if page1_lines = [] then Some None
         else
           let page_width = (case py_max (map x1 page1_lines) of None \<Rightarrow> 600 | Some m \<Rightarrow> m)
           in do {
             med \<leftarrow> median (map avg_font_size page1_lines);
             Some (map_option (\<lambda>l. collapse (text_l l))
                     (find (\<lambda>l. med < avg_font_size l
                                \<and> \<bar>(x0 l + x1 l) / 2 - page_width / 2\<bar> < page_width * 0.15)
                        page1_lines))
           })"

text \<open>Step 4 and the final \<open>return None\<close>.\<close>

definition title_first :: "scored list \<Rightarrow> ustr option" where
  "title_first cands = (case cands of [] \<Rightarrow> None | c # _ \<Rightarrow> Some (collapse (text_l c)))"

definition title_fallback :: "scored list \<Rightarrow> scored list \<Rightarrow> ustr option option" where
  "title_fallback sc cands =
     do {
       t3 \<leftarrow> title_centered sc;
       (case t3 of Some t \<Rightarrow> Some (Some t) | None \<Rightarrow> Some (title_first cands))
     }"

definition detect_title ::
  "(ustr \<Rightarrow> ustr) \<Rightarrow> ustr option \<Rightarrow> scored list \<Rightarrow> scored list \<Rightarrow> ustr option option" where
  "detect_title lower meta sc cands =
     (case title_meta lower meta sc of
        Some t \<Rightarrow> Some (Some t)
      | None \<Rightarrow>
          (case title_page1 cands of
             Some t \<Rightarrow> Some (Some t)
           | None \<Rightarrow> title_fallback sc cands))"

section \<open>Level assigner\<close>

record entry =
  o_level :: ustr
  o_text :: ustr
  o_page :: nat

text \<open>\<open>str\<close> of a natural number, for the f-string of the level.\<close>

fun str_nat :: "nat \<Rightarrow> ustr" where
  "str_nat n = (if n < 10 then [48 + n] else str_nat (n div 10) @ [48 + n mod 10])"

declare str_nat.simps [simp del]

text \<open>The thresholds from the sorted distinct sizes; \<open>sizes[0]\<close> raises on no sizes.\<close>

definition thresholds_of :: "real list \<Rightarrow> real list option" where
  "thresholds_of sizes =
     (let n = length sizes
      in if 3 \<le> n then Some [sizes ! (n - 1), sizes ! (n - 2), sizes ! (n - 3)]
         else (case sizes of
                 [] \<Rightarrow> None
               | s0 # _ \<Rightarrow> Some (rev sizes @ replicate (3 - n) s0)))"

definition font_level :: "real list \<Rightarrow> real \<Rightarrow> nat" where
  "font_level thresholds sz =
     (if thresholds ! 0 \<le> sz then 1 else if thresholds ! 1 \<le> sz then 2 else 3)"

definition numbering_level :: "ustr \<Rightarrow> nat option" where
  "numbering_level text =
     (case NUM_PAT_match text of
        Some num \<Rightarrow>
          if 46 \<in> set num then Some (min (count_list num 46 + 1) 3)
          else if list_ex (\<lambda>c. c \<in> set num) kanji then Some 1
          else Some 1
      | None \<Rightarrow> None)"

text \<open>The level of one candidate, up to the indent tie-break.\<close>

definition entry_level :: "real list \<Rightarrow> scored \<Rightarrow> nat" where
  "entry_level thresholds l =
     (let f_level = font_level thresholds (avg_font_size l);
          level = (case numbering_level (text_l l) of
                     None \<Rightarrow> f_level
                   | Some n_level \<Rightarrow> if n_level \<noteq> 0 then min f_level n_level else f_level)
      in if 1 < level \<and> 10 < indent l then min (level + 1) 3 else level)"

text \<open>The emission loop; \<open>out\<close> is \<open>outline\<close> so far and \<open>seen\<close> the keys met.\<close>

fun emit :: "real list \<Rightarrow> entry list \<Rightarrow> (ustr \<times> nat \<times> int) set \<Rightarrow> scored list \<Rightarrow> entry list" where
  "emit thresholds out seen [] = out"
| "emit thresholds out seen (l # ls) =
     (let level = entry_level thresholds l;
          key = (strip (text_l l), page l, py_round (top_l l))
      in if key \<in> seen then emit thresholds out seen ls
         else emit thresholds
                (out @ [\<lparr>o_level = ascii ''H'' @ str_nat level, o_text = strip (text_l l),
                          o_page = page l\<rparr>])
                (insert key seen) ls)"

text \<open>"Guarantee at least one H1".\<close>

definition guarantee_h1 :: "entry list \<Rightarrow> entry list" where
  "guarantee_h1 out =
     (case out of
        [] \<Rightarrow> []
      | e # es \<Rightarrow>
          if \<not> list_ex (\<lambda>p. o_level p = ascii ''H1'') out
          then e\<lparr>o_level := ascii ''H1''\<rparr> # es else out)"

text \<open>
  "Demote isolated H3s". The loop updates the entries in place, so \<open>outline[:i]\<close> holds
  the entries before position \<open>i\<close> as already rewritten: \<open>pre\<close> here.
\<close>

fun demote_isolated :: "entry list \<Rightarrow> entry list \<Rightarrow> entry list" where
  "demote_isolated pre [] = pre"
| "demote_isolated pre (e # es) =
     (if o_level e = ascii ''H3'' \<and> \<not> list_ex (\<lambda>p. o_level p = ascii ''H2'') pre
      then demote_isolated (pre @ [e\<lparr>o_level := ascii ''H2''\<rparr>]) es
      else demote_isolated (pre @ [e]) es)"

text \<open>The entries as the emission loop leaves them, before the two repairs.\<close>

definition emitted :: "scored list \<Rightarrow> entry list option" where
  "emitted cands =
     do {
       thresholds \<leftarrow> thresholds_of (sort (remdups (map avg_font_size cands)));
       Some (emit thresholds [] {} cands)
     }"

definition assign_levels :: "scored list \<Rightarrow> entry list option" where
  "assign_levels cands =
     (if cands = [] then Some []
      else do {
        out \<leftarrow> emitted cands;
        Some (demote_isolated [] (guarantee_h1 out))
      })"

section \<open>The pipeline\<close>

record pdf =
  pages :: "word list list"
  metadata_title :: "ustr option"

record result =
  title :: "ustr option"
  outline :: "entry list"

definition process_pdf ::
  "(ustr \<Rightarrow> bool) \<Rightarrow> (ustr \<Rightarrow> ustr) \<Rightarrow> (real \<Rightarrow> real) \<Rightarrow> pdf \<Rightarrow> result option" where
  "process_pdf isupper lower rnd doc =
     do {
       per_page \<leftarrow> those (map (\<lambda>(p_idx, wds). extract_lines isupper wds p_idx)
                              (List.enumerate 1 (pages doc)));
       scored \<leftarrow> score_lines (merge_wrapped_heading_lines (drop_repeating_headers (concat per_page)));
       cands \<leftarrow> candidates rnd scored;
       t \<leftarrow> detect_title lower (metadata_title doc) scored cands;
       out \<leftarrow> assign_levels cands;
       Some \<lparr>title = t, outline = out\<rparr>
     }"

section \<open>Definitions used by the proofs\<close>

text \<open>
  The two data sets \<open>score_lines\<close> takes its statistics from: the positive font sizes
  (or the fallback) and the positive leadings.
\<close>

definition size_data :: "line list \<Rightarrow> real list" where
  "size_data lines =
     (let sizes = filter (\<lambda>z. 0 < z) (map avg_font_size lines)
      in if sizes = [] then [10] else sizes)"

definition leading_data :: "line list \<Rightarrow> real list" where
  "leading_data lines = filter (\<lambda>g. 0 < g) (map leading lines)"

text \<open>
  The strings a regular expression matches, without the order of the tries: what the
  matcher is sound for.
\<close>

primrec rx_lang :: "rx \<Rightarrow> ustr set" where
  "rx_lang (Lit c) = {[c]}"
| "rx_lang (Cls cs) = {[x] | x. x \<in> set cs}"
| "rx_lang (Seq a b) = {p @ q | p q. p \<in> rx_lang a \<and> q \<in> rx_lang b}"
| "rx_lang (Alt a b) = rx_lang a \<union> rx_lang b"
| "rx_lang (Star a) = {concat ps | ps. set ps \<subseteq> rx_lang a}"

text \<open>Concrete inputs: a scored line, a numbered heading, a running header, a word.\<close>

definition sline :: "nat \<Rightarrow> ustr \<Rightarrow> real \<Rightarrow> real \<Rightarrow> real \<Rightarrow> scored" where
  "sline p t sz tp s =
     \<lparr>page = p, text_l = t, font_names = [ascii ''Helvetica''], font_sizes = [sz],
      x0 = 72, x1 = 300, top_l = tp, bottom = tp + sz, is_boldish = False,
      is_all_caps = False, avg_font_size = sz, leading = 0, indent = 0, score = s\<rparr>"

definition intro_line :: line where
  "intro_line =
     \<lparr>page = 1, text_l = ascii ''1. Introduction'', font_names = [ascii ''Helvetica-Bold''],
      font_sizes = [24], x0 = 72, x1 = 310, top_l = 72, bottom = 96, is_boldish = True,
      is_all_caps = False, avg_font_size = 24, leading = 0, indent = 0\<rparr>"

definition running_header :: "nat \<Rightarrow> line" where
  "running_header p =
     \<lparr>page = p, text_l = ascii ''Annual Report 2023'', font_names = [ascii ''Helvetica''],
      font_sizes = [9], x0 = 72, x1 = 180, top_l = 20, bottom = 29, is_boldish = False,
      is_all_caps = False, avg_font_size = 9, leading = 0, indent = 0\<rparr>"

definition black_word :: word where
  "black_word =
     \<lparr>w_text = ascii ''Summary'', w_x0 = 72, w_x1 = 140, w_top = 100, w_bottom = 114,
      w_fontname = Some (ascii ''Arial-black''), w_size = Some 14\<rparr>"

section \<open>Facts about the helper functions\<close>

lemma ascii_H:
  "ascii ''H1'' = [72, 49]" "ascii ''H2'' = [72, 50]" "ascii ''H3'' = [72, 51]" "ascii ''H'' = [72]"
  by (simp_all add: ascii_def)

lemma str_nat_levels:
  "str_nat (Suc 0) = [49]" "str_nat 1 = [49]" "str_nat 2 = [50]" "str_nat 3 = [51]"
  by (simp_all add: str_nat.simps)

lemmas rx_defs = NUM_PAT_match_def num_rx_def decimal_rx_def roman_rx_def cjk_rx_def
  tail_rx_def digit_def kanji_def Plus_def ascii_def

subsection \<open>The matcher is sound\<close>

lemma star_run_sound:
  assumes f: "\<And>s r. r \<in> set (f s) \<Longrightarrow> \<exists>p. s = p @ r \<and> p \<in> A"
  shows "r \<in> set (star_run f n s) \<Longrightarrow> \<exists>ps. s = concat ps @ r \<and> set ps \<subseteq> A"
proof (induction n arbitrary: s)
  case 0
  then have "s = concat [] @ r" by simp
  then show ?case by (metis empty_set empty_subsetI)
next
  case (Suc n)
  from Suc.prems consider "r = s" | r1 where "r1 \<in> set (f s)" "r \<in> set (star_run f n r1)"
    by auto
  then show ?case
  proof cases
    case 1
    then have "s = concat [] @ r" by simp
    then show ?thesis by (metis empty_set empty_subsetI)
  next
    case 2
    from f[OF 2(1)] obtain p where p: "s = p @ r1" "p \<in> A" by blast
    from Suc.IH[OF 2(2)] obtain ps where ps: "r1 = concat ps @ r" "set ps \<subseteq> A" by blast
    have "s = concat (p # ps) @ r" using p(1) ps(1) by simp
    moreover have "set (p # ps) \<subseteq> A" using p(2) ps(2) by simp
    ultimately show ?thesis by blast
  qed
qed

lemma rx_run_sound: "r \<in> set (rx_run a s) \<Longrightarrow> \<exists>p. s = p @ r \<and> p \<in> rx_lang a"
proof (induction a arbitrary: s r)
  case (Lit c)
  then show ?case by (cases s) (auto split: if_splits)
next
  case (Cls cs)
  then show ?case by (cases s) (auto split: if_splits)
next
  case (Seq a b)
  from Seq.prems obtain r1 where r1: "r1 \<in> set (rx_run a s)" "r \<in> set (rx_run b r1)" by auto
  from Seq.IH(1)[OF r1(1)] obtain p where p: "s = p @ r1" "p \<in> rx_lang a" by blast
  from Seq.IH(2)[OF r1(2)] obtain q where q: "r1 = q @ r" "q \<in> rx_lang b" by blast
  have "s = (p @ q) @ r" using p(1) q(1) by simp
  moreover have "p @ q \<in> rx_lang (Seq a b)" using p(2) q(2) by auto
  ultimately show ?case by blast
next
  case (Alt a b)
  then show ?case by fastforce
next
  case (Star a)
  from Star.prems have "r \<in> set (star_run (rx_run a) (length s) s)" by simp
  from star_run_sound[of "rx_run a" "rx_lang a", OF Star.IH this]
  obtain ps where "s = concat ps @ r" "set ps \<subseteq> rx_lang a" by blast
  then show ?case by auto
qed

lemma tail_rx_starts: "rx_run tail_rx r \<noteq> [] \<Longrightarrow> \<exists>rest. r = 92 # 98 # rest"
  by (cases r; cases "tl r") (auto simp: tail_rx_def split: if_splits)

lemma NUM_PAT_match_sound:
  assumes "NUM_PAT_match text = Some num"
  shows "num \<in> rx_lang num_rx \<and> (\<exists>rest. text = num @ 92 # 98 # rest)"
proof -
  from assms obtain r rs where
    fr: "filter (\<lambda>r. rx_run tail_rx r \<noteq> []) (rx_run num_rx text) = r # rs"
    and num: "num = take (length text - length r) text"
    by (auto simp: NUM_PAT_match_def split: list.splits)
  have "r \<in> set (filter (\<lambda>r. rx_run tail_rx r \<noteq> []) (rx_run num_rx text))"
    by (simp add: fr)
  then have r: "r \<in> set (rx_run num_rx text)" and t: "rx_run tail_rx r \<noteq> []" by auto
  from rx_run_sound[OF r] obtain p where p: "text = p @ r" "p \<in> rx_lang num_rx" by blast
  have "num = p" using num p(1) by simp
  moreover from tail_rx_starts[OF t] obtain rest where "r = 92 # 98 # rest" ..
  ultimately show ?thesis using p by auto
qed

lemma plus_lang: "p \<in> rx_lang (Plus (Cls cs)) \<Longrightarrow> p \<noteq> [] \<and> set p \<subseteq> set cs"
  by (fastforce simp: Plus_def)

lemma decimal_no_dot:
  assumes "p \<in> rx_lang decimal_rx" "46 \<notin> set p"
  shows "p \<in> rx_lang (Plus digit)"
proof -
  from assms(1) obtain d ps where p: "p = d @ concat ps" and d: "d \<in> rx_lang (Plus digit)"
    and ps: "set ps \<subseteq> rx_lang (Seq (Lit 46) (Plus digit))"
    by (auto simp: decimal_rx_def)
  have "ps = []"
  proof (rule ccontr)
    assume "ps \<noteq> []"
    then obtain q qs where "ps = q # qs" by (cases ps) auto
    with ps have "q \<in> rx_lang (Seq (Lit 46) (Plus digit))" by simp
    then obtain t where "q = 46 # t" by auto
    with \<open>ps = q # qs\<close> p have "46 \<in> set p" by simp
    with assms(2) show False by simp
  qed
  with p d show ?thesis by simp
qed

lemma roman_no_dot: "p \<in> rx_lang roman_rx \<Longrightarrow> 46 \<notin> set p"
  unfolding roman_rx_def by (drule plus_lang) (auto simp: ascii_def)

lemma cjk_no_dot: "p \<in> rx_lang cjk_rx \<Longrightarrow> 46 \<notin> set p"
proof -
  assume "p \<in> rx_lang cjk_rx"
  then obtain ks where "p = 31532 # ks @ [31456]" and "ks \<in> rx_lang (Plus (Cls kanji))"
    by (auto simp: cjk_rx_def)
  moreover from this have "set ks \<subseteq> set kanji" using plus_lang by blast
  moreover have "46 \<notin> set kanji" by (simp add: kanji_def)
  ultimately show ?thesis by auto
qed

subsection \<open>Statistics\<close>

lemma median_Some: "xs \<noteq> [] \<Longrightarrow> \<exists>m. median xs = Some m"
proof -
  assume "xs \<noteq> []"
  then have "length (sort xs) \<noteq> 0" by simp
  then have "median xs =
      Some (if odd (length (sort xs)) then sort xs ! (length (sort xs) div 2)
            else (sort xs ! (length (sort xs) div 2 - 1) + sort xs ! (length (sort xs) div 2)) / 2)"
    unfolding median_def Let_def by (simp only: if_False if_distrib[of Some])
  then show ?thesis by blast
qed

lemma median_mset: "mset xs = mset ys \<Longrightarrow> median xs = median ys"
proof -
  assume a: "mset xs = mset ys"
  have "sort xs = sort ys"
    by (rule properties_for_sort) (simp_all add: a)
  then show ?thesis by (simp add: median_def)
qed

lemma sum_list_mset: "mset xs = mset ys \<Longrightarrow> sum_list xs = sum_list (ys :: real list)"
  by (metis sum_mset_sum_list)

lemma stdev_mset: "mset xs = mset ys \<Longrightarrow> stdev xs = stdev ys"
proof -
  assume a: "mset xs = mset ys"
  have l: "length xs = length ys" using a by (rule mset_eq_length)
  have s: "sum_list xs = sum_list ys" using a by (rule sum_list_mset)
  have "mset (map (\<lambda>x. (x - sum_list ys / real (length ys))\<^sup>2) xs)
      = mset (map (\<lambda>x. (x - sum_list ys / real (length ys))\<^sup>2) ys)"
    using a by simp
  then have "sum_list (map (\<lambda>x. (x - sum_list ys / real (length ys))\<^sup>2) xs)
      = sum_list (map (\<lambda>x. (x - sum_list ys / real (length ys))\<^sup>2) ys)"
    by (rule sum_list_mset)
  then show ?thesis by (simp add: stdev_def l s)
qed

lemma stdev_Some: "1 < length xs \<Longrightarrow> \<exists>d. stdev xs = Some d"
  by (simp add: stdev_def Let_def)

lemma py_min_Some: "xs \<noteq> [] \<Longrightarrow> \<exists>m. py_min xs = Some m"
  by (cases xs) (simp_all add: py_min_def)


subsection \<open>The scorer in terms of its two data sets\<close>

lemma score_lines_alt:
  "score_lines lines =
     (if lines = [] then Some []
      else do {
        median_size \<leftarrow> median (size_data lines);
        stdev_size \<leftarrow> (if 1 < length (size_data lines) then stdev (size_data lines) else Some 1);
        median_leading \<leftarrow> (if leading_data lines \<noteq> [] then median (leading_data lines) else Some 0);
        min_x0 \<leftarrow> py_min (map x0 lines);
        Some (map (\<lambda>l. with_score l (line_score median_size stdev_size median_leading l)) lines)
      })"
  by (simp add: score_lines_def size_data_def leading_data_def Let_def)

lemma size_data_nonempty: "size_data lines \<noteq> []"
  by (simp add: size_data_def Let_def)

lemma size_data_mset: "mset ys = mset xs \<Longrightarrow> mset (size_data ys) = mset (size_data xs)"
proof -
  assume a: "mset ys = mset xs"
  have "mset (filter (\<lambda>z. 0 < z) (map avg_font_size ys))
      = mset (filter (\<lambda>z. 0 < z) (map avg_font_size xs))"
    by (simp add: a)
  moreover from this have "filter (\<lambda>z. 0 < z) (map avg_font_size ys) = []
      \<longleftrightarrow> filter (\<lambda>z. 0 < z) (map avg_font_size xs) = []"
    by (metis mset_zero_iff)
  ultimately show ?thesis by (simp add: size_data_def Let_def)
qed

lemma leading_data_mset: "mset ys = mset xs \<Longrightarrow> mset (leading_data ys) = mset (leading_data xs)"
  by (simp add: leading_data_def)

subsection \<open>The level assigner\<close>

lemma level_name_cases:
  "n = 1 \<or> n = 2 \<or> n = 3 \<Longrightarrow> ascii ''H'' @ str_nat n \<in> {ascii ''H1'', ascii ''H2'', ascii ''H3''}"
  by (auto simp: ascii_H str_nat.simps)

lemma font_level_range: "font_level th z = 1 \<or> font_level th z = 2 \<or> font_level th z = 3"
  by (simp add: font_level_def)

lemma numbering_level_range:
  "numbering_level t = Some n \<Longrightarrow> n = 1 \<or> n = 2 \<or> n = 3"
  by (auto simp: numbering_level_def min_def split: option.splits if_splits)

lemma entry_level_range:
  "entry_level th l = 1 \<or> entry_level th l = 2 \<or> entry_level th l = 3"
proof -
  let ?f = "font_level th (avg_font_size l)"
  have f: "?f = 1 \<or> ?f = 2 \<or> ?f = 3" by (rule font_level_range)
  show ?thesis
  proof (cases "numbering_level (text_l l)")
    case None
    with f show ?thesis by (auto simp: entry_level_def Let_def)
  next
    case (Some n)
    then have "n = 1 \<or> n = 2 \<or> n = 3" by (rule numbering_level_range)
    with f Some show ?thesis by (auto simp: entry_level_def Let_def min_def)
  qed
qed

lemma emit_levels:
  "\<forall>e\<in>set out. o_level e \<in> {ascii ''H1'', ascii ''H2'', ascii ''H3''} \<Longrightarrow>
   \<forall>e\<in>set (emit th out seen ls). o_level e \<in> {ascii ''H1'', ascii ''H2'', ascii ''H3''}"
proof (induction ls arbitrary: out seen)
  case Nil
  then show ?case by simp
next
  case (Cons l ls)
  have lv: "ascii ''H'' @ str_nat (entry_level th l) \<in> {ascii ''H1'', ascii ''H2'', ascii ''H3''}"
    by (rule level_name_cases) (rule entry_level_range)
  show ?case
  proof (cases "(strip (text_l l), page l, py_round (top_l l)) \<in> seen")
    case True
    with Cons show ?thesis by (simp add: Let_def)
  next
    case False
    have "\<forall>e\<in>set (out @ [\<lparr>o_level = ascii ''H'' @ str_nat (entry_level th l),
              o_text = strip (text_l l), o_page = page l\<rparr>]).
            o_level e \<in> {ascii ''H1'', ascii ''H2'', ascii ''H3''}"
      using Cons.prems lv by auto
    from Cons.IH[OF this] False show ?thesis by (simp add: Let_def)
  qed
qed

lemma emit_keeps_nonempty: "out \<noteq> [] \<Longrightarrow> emit th out seen ls \<noteq> []"
  by (induction ls arbitrary: out seen) (auto simp: Let_def)

lemma emit_first_nonempty: "emit th [] {} (l # ls) \<noteq> []"
  by (simp add: Let_def emit_keeps_nonempty)

lemma guarantee_h1_props:
  assumes "out \<noteq> []" "\<forall>e\<in>set out. o_level e \<in> {ascii ''H1'', ascii ''H2'', ascii ''H3''}"
  shows "guarantee_h1 out \<noteq> []"
    and "\<forall>e\<in>set (guarantee_h1 out). o_level e \<in> {ascii ''H1'', ascii ''H2'', ascii ''H3''}"
    and "\<exists>e\<in>set (guarantee_h1 out). o_level e = ascii ''H1''"
proof -
  from assms(1) obtain e es where o: "out = e # es" by (cases out) auto
  show "guarantee_h1 out \<noteq> []" by (simp add: o guarantee_h1_def)
  show "\<forall>e\<in>set (guarantee_h1 out). o_level e \<in> {ascii ''H1'', ascii ''H2'', ascii ''H3''}"
    using assms(2) by (auto simp: o guarantee_h1_def)
  show "\<exists>e\<in>set (guarantee_h1 out). o_level e = ascii ''H1''"
    by (cases "list_ex (\<lambda>p. o_level p = ascii ''H1'') out")
       (auto simp: o guarantee_h1_def list_ex_iff)
qed

lemma demote_levels:
  "\<forall>e\<in>set (pre @ es). o_level e \<in> {ascii ''H1'', ascii ''H2'', ascii ''H3''} \<Longrightarrow>
   \<forall>e\<in>set (demote_isolated pre es). o_level e \<in> {ascii ''H1'', ascii ''H2'', ascii ''H3''}"
proof (induction es arbitrary: pre)
  case Nil
  then show ?case by simp
next
  case (Cons e es)
  show ?case
  proof (cases "o_level e = ascii ''H3'' \<and> \<not> list_ex (\<lambda>p. o_level p = ascii ''H2'') pre")
    case True
    have "\<forall>x\<in>set ((pre @ [e\<lparr>o_level := ascii ''H2''\<rparr>]) @ es).
            o_level x \<in> {ascii ''H1'', ascii ''H2'', ascii ''H3''}"
      using Cons.prems by auto
    from Cons.IH[OF this] True show ?thesis by simp
  next
    case False
    have "\<forall>x\<in>set ((pre @ [e]) @ es). o_level x \<in> {ascii ''H1'', ascii ''H2'', ascii ''H3''}"
      using Cons.prems by auto
    from Cons.IH[OF this] False show ?thesis by auto
  qed
qed

lemma demote_keeps_h1:
  "\<exists>e\<in>set (pre @ es). o_level e = ascii ''H1'' \<Longrightarrow>
   \<exists>e\<in>set (demote_isolated pre es). o_level e = ascii ''H1''"
proof (induction es arbitrary: pre)
  case Nil
  then show ?case by simp
next
  case (Cons e es)
  show ?case
  proof (cases "o_level e = ascii ''H3'' \<and> \<not> list_ex (\<lambda>p. o_level p = ascii ''H2'') pre")
    case True
    then have "o_level e \<noteq> ascii ''H1''" by (simp add: ascii_H)
    with Cons.prems
    have "\<exists>x\<in>set ((pre @ [e\<lparr>o_level := ascii ''H2''\<rparr>]) @ es). o_level x = ascii ''H1''"
      by auto
    from Cons.IH[OF this] True show ?thesis by simp
  next
    case False
    from Cons.prems have "\<exists>x\<in>set ((pre @ [e]) @ es). o_level x = ascii ''H1''" by auto
    from Cons.IH[OF this] False show ?thesis by auto
  qed
qed

lemma demote_length: "length (demote_isolated pre es) = length pre + length es"
  by (induction es arbitrary: pre) auto

lemma thresholds_of_Some: "sizes \<noteq> [] \<Longrightarrow> \<exists>th. thresholds_of sizes = Some th \<and> length th = 3"
  by (cases sizes) (auto simp: thresholds_of_def Let_def)

lemma emitted_Some:
  "cands \<noteq> [] \<Longrightarrow> \<exists>th. emitted cands = Some (emit th [] {} cands)"
proof -
  assume "cands \<noteq> []"
  then have "length (sort (remdups (map avg_font_size cands))) \<noteq> 0" by simp
  then have "sort (remdups (map avg_font_size cands)) \<noteq> []"
    by (simp only: length_0_conv not_False_eq_True)
  from thresholds_of_Some[OF this] show ?thesis by (auto simp: emitted_def)
qed

lemma emitted_Nil: "emitted [] = None"
  by (simp add: emitted_def thresholds_of_def)

lemma ex3_emitted:
  "emitted [sline 1 (ascii ''Scope'') 10 100 5, sline 1 (ascii ''Methods'') 12 200 5,
            sline 2 (ascii ''Results'') 14 80 5]
   = Some [\<lparr>o_level = ascii ''H3'', o_text = ascii ''Scope'', o_page = 1\<rparr>,
           \<lparr>o_level = ascii ''H2'', o_text = ascii ''Methods'', o_page = 1\<rparr>,
           \<lparr>o_level = ascii ''H1'', o_text = ascii ''Results'', o_page = 2\<rparr>]"
  by (simp add: emitted_def thresholds_of_def sline_def Let_def entry_level_def font_level_def
      numbering_level_def rx_defs strip_def lstrip_def rstrip_def isspace_def py_round_def
      str_nat_levels)

subsection \<open>The title detector and the line builder\<close>


lemma extract_empty_pages:
  "\<forall>wds\<in>set pgs. wds = [] \<Longrightarrow>
   those (map (\<lambda>(p_idx, wds). extract_lines isupper wds p_idx) (List.enumerate k pgs))
     = Some (replicate (length pgs) [])"
  by (induction pgs arbitrary: k) (simp_all add: extract_lines_def)

section \<open>The claims\<close>

text \<open>
  Claim C1: a line whose text begins with a numeral at a word boundary, such as
  "1. Introduction", gets the +1.5 numbering contribution from \<open>score_lines\<close>.
  The code does not do this. \<open>NUM_PAT\<close> ends with an escaped backslash and the letter b
  where a word boundary was meant, so it matches only a numeral that these two
  characters follow (\<open>NUM_PAT_match_sound\<close>) and "1. Introduction" does not match; scored
  alone, the line gets 1 (bold) - 0.25 (two tokens) + 0.5 (indent) + 1 (top of page 1)
  and no 1.5.
\<close>

theorem numbering_bonus_missing:
  "NUM_PAT_match (ascii ''1. Introduction'') = None
   \<and> score_lines [intro_line] = Some [with_score intro_line (1 - 0.25 + 0.5 + 1)]"
  by (simp add: score_lines_def intro_line_def median_def py_min_def line_score_def Let_def
      split_def page_height_hint_def endswith_def rstrip_def isspace_def rx_defs)

text \<open>
  Claim C2: over a nonempty list of scored lines the threshold is the mean of the scores
  plus their sample standard deviation (0 for fewer than two lines), as the floats the
  code computes: the exact mean rounded, the exact sample deviation rounded, and their
  sum rounded. The candidates are exactly the lines whose score is at least this
  threshold, in their order. For the empty list the threshold is 0 and there are no
  candidates. Neither call raises.
\<close>

theorem candidate_iff_mean_plus_stdev:
  "scored_threshold rnd [] = Some 0 \<and> candidates rnd [] = Some [] \<and>
   (sc \<noteq> [] \<longrightarrow>
     (let n = length sc;
          mu = sum_list (map score sc) / real n;
          m = rnd mu;
          sd = (if n < 2 then 0
                else rnd (sqrt (sum_list (map (\<lambda>l. (score l - mu)\<^sup>2) sc) / real (n - 1))));
          t = rnd (m + sd)
      in scored_threshold rnd sc = Some t
         \<and> candidates rnd sc = Some (filter (\<lambda>l. t \<le> score l) sc)))"
  by (auto simp: scored_threshold_def candidates_def mean_float_def stdev_float_def stdev_def
      Let_def comp_def)

text \<open>
  Scores 1, 3, 5: mean 3, deviation 2, threshold 5, and only the last line is kept. All
  of these are floats, so no rounding takes place and \<open>rnd\<close> is the identity here.
\<close>

theorem candidate_iff_mean_plus_stdev_witness:
  "[sline 1 (ascii ''a'') 10 100 1, sline 1 (ascii ''b'') 10 200 3,
    sline 1 (ascii ''c'') 10 300 5] \<noteq> []
   \<and> scored_threshold (\<lambda>x. x) [sline 1 (ascii ''a'') 10 100 1, sline 1 (ascii ''b'') 10 200 3,
        sline 1 (ascii ''c'') 10 300 5] = Some 5
   \<and> candidates (\<lambda>x. x) [sline 1 (ascii ''a'') 10 100 1, sline 1 (ascii ''b'') 10 200 3,
        sline 1 (ascii ''c'') 10 300 5] = Some [sline 1 (ascii ''c'') 10 300 5]"
  using candidate_iff_mean_plus_stdev[of "\<lambda>x. x" "[sline 1 (ascii ''a'') 10 100 1,
    sline 1 (ascii ''b'') 10 200 3, sline 1 (ascii ''c'') 10 300 5]"]
  by (simp add: sline_def Let_def)

text \<open>The threshold of three lines, written out.\<close>

lemma threshold_three:
  "scored_threshold rnd [sline p1 t1 z1 y1 a, sline p2 t2 z2 y2 b, sline p3 t3 z3 y3 c]
     = Some (rnd (rnd ((a + b + c) / 3)
                  + rnd (sqrt (((a - (a + b + c) / 3)\<^sup>2 + (b - (a + b + c) / 3)\<^sup>2
                                + (c - (a + b + c) / 3)\<^sup>2) / 2))))"
  by (simp add: scored_threshold_def mean_float_def stdev_float_def stdev_def Let_def sline_def
      add.assoc)

text \<open>
  The scores 0.1, 0.2 and 0.3 as floats, written as the fractions they are. Their exact
  mean plus exact deviation lies above the float 0.3; with the three roundings to the
  nearest float that the code performs (the hypotheses) the threshold is the float 0.3
  itself, and the third line is kept.
\<close>

lemma threshold_on_boundary:
  assumes "rnd (21617278211378381 / 108086391056891904) = 3602879701896397 / 18014398509481984"
    and "rnd (sqrt (38942226439011200728795259055637 / 3894222643901120721397872246915072))
           = 7205759403792793 / 72057594037927936"
    and "rnd (21617278211378381 / 72057594037927936) = 5404319552844595 / 18014398509481984"
  shows "candidates rnd
           [sline 1 (ascii ''a'') 10 100 (3602879701896397 / 36028797018963968),
            sline 1 (ascii ''b'') 10 200 (3602879701896397 / 18014398509481984),
            sline 1 (ascii ''c'') 10 300 (5404319552844595 / 18014398509481984)]
         = Some [sline 1 (ascii ''c'') 10 300 (5404319552844595 / 18014398509481984)]"
proof -
  let ?a = "3602879701896397 / 36028797018963968 :: real"
  let ?b = "3602879701896397 / 18014398509481984 :: real"
  let ?c = "5404319552844595 / 18014398509481984 :: real"
  have mu: "(?a + ?b + ?c) / 3 = 21617278211378381 / 108086391056891904" by simp
  have var: "((?a - 21617278211378381 / 108086391056891904)\<^sup>2
             + (?b - 21617278211378381 / 108086391056891904)\<^sup>2
             + (?c - 21617278211378381 / 108086391056891904)\<^sup>2) / 2
           = 38942226439011200728795259055637 / 3894222643901120721397872246915072"
    by (simp add: power2_eq_square)
  have sum: "3602879701896397 / 18014398509481984 + 7205759403792793 / 72057594037927936
           = (21617278211378381 / 72057594037927936 :: real)" by simp
  have t: "scored_threshold rnd
           [sline 1 (ascii ''a'') 10 100 ?a, sline 1 (ascii ''b'') 10 200 ?b,
            sline 1 (ascii ''c'') 10 300 ?c] = Some ?c"
    by (simp only: threshold_three mu var assms sum)
  have s: "score (sline 1 (ascii ''a'') 10 100 ?a) = ?a" "score (sline 1 (ascii ''b'') 10 200 ?b) = ?b"
    "score (sline 1 (ascii ''c'') 10 300 ?c) = ?c"
    by (simp_all add: sline_def)
  have cmp: "\<not> ?c \<le> ?a" "\<not> ?c \<le> ?b" "?c \<le> ?c" by simp_all
  show ?thesis
    unfolding candidates_def
    by (simp only: t list.simps if_False bind.bind_lunit filter.simps s cmp if_True)
qed

text \<open>
  Claim C3: when the emission loop leaves entries of levels H3, H2, H1 in this order,
  \<open>assign_levels\<close> returns them with levels H2, H2, H1: the H1 guarantee changes nothing,
  the first entry is demoted because no H2 stands before it, and texts and pages are
  kept.
\<close>

theorem repair_H3_H2_H1:
  assumes "emitted cands = Some out"
    and "map o_level out = [ascii ''H3'', ascii ''H2'', ascii ''H1'']"
  shows "\<exists>out'. assign_levels cands = Some out'
           \<and> map o_level out' = [ascii ''H2'', ascii ''H2'', ascii ''H1'']
           \<and> map o_text out' = map o_text out \<and> map o_page out' = map o_page out"
proof -
  from assms(1) have ne: "cands \<noteq> []" by (auto simp: emitted_Nil)
  from assms(2) obtain a b c where out: "out = [a, b, c]"
    and lv: "o_level a = ascii ''H3''" "o_level b = ascii ''H2''" "o_level c = ascii ''H1''"
    by (auto simp: map_eq_Cons_conv)
  have g: "guarantee_h1 out = out"
    by (simp add: guarantee_h1_def out lv)
  have d: "demote_isolated [] out = [a\<lparr>o_level := ascii ''H2''\<rparr>, b, c]"
    by (simp add: out lv ascii_H)
  have "assign_levels cands = Some (demote_isolated [] (guarantee_h1 out))"
    using ne assms(1) by (simp add: assign_levels_def)
  then have "assign_levels cands = Some [a\<lparr>o_level := ascii ''H2''\<rparr>, b, c]"
    by (simp only: g d)
  then show ?thesis by (simp add: out lv)
qed

text \<open>Three candidates of sizes 10, 12 and 14 are emitted as H3, H2, H1.\<close>

theorem repair_H3_H2_H1_witness:
  "emitted [sline 1 (ascii ''Scope'') 10 100 5, sline 1 (ascii ''Methods'') 12 200 5,
            sline 2 (ascii ''Results'') 14 80 5]
   = Some [\<lparr>o_level = ascii ''H3'', o_text = ascii ''Scope'', o_page = 1\<rparr>,
           \<lparr>o_level = ascii ''H2'', o_text = ascii ''Methods'', o_page = 1\<rparr>,
           \<lparr>o_level = ascii ''H1'', o_text = ascii ''Results'', o_page = 2\<rparr>]
   \<and> (\<exists>out'. assign_levels [sline 1 (ascii ''Scope'') 10 100 5,
                  sline 1 (ascii ''Methods'') 12 200 5, sline 2 (ascii ''Results'') 14 80 5]
                = Some out'
        \<and> map o_level out' = [ascii ''H2'', ascii ''H2'', ascii ''H1''])"
  using repair_H3_H2_H1[OF ex3_emitted] ex3_emitted by auto




text \<open>
  Claim C5: a document all of whose pages have no words (among them the document with no
  pages) gives the result with no title and the empty outline, whatever its metadata.
\<close>

theorem empty_document_result:
  assumes "\<forall>wds\<in>set (pages doc). wds = []"
  shows "process_pdf isupper lower rnd doc = Some \<lparr>title = None, outline = []\<rparr>"
proof -
  have t: "detect_title lower (metadata_title doc) [] [] = Some None"
    by (simp add: detect_title_def title_meta_def title_page1_def title_fallback_def
        title_centered_def title_first_def Let_def)
  have c: "concat (replicate (length (pages doc)) ([] :: line list)) = []" by simp
  show ?thesis
    by (simp add: process_pdf_def extract_empty_pages[OF assms] c drop_repeating_headers_def
        merge_wrapped_heading_lines_def score_lines_def candidates_def t assign_levels_def)
qed

text \<open>Two pages without words and a metadata title.\<close>

theorem empty_document_result_witness:
  "pages \<lparr>pages = [[], []], metadata_title = Some (ascii ''Report'')\<rparr> = [[], []]
   \<and> process_pdf (\<lambda>t. False) id (\<lambda>x. x)
         \<lparr>pages = [[], []], metadata_title = Some (ascii ''Report'')\<rparr>
       = Some \<lparr>title = None, outline = []\<rparr>"
  using empty_document_result[of "\<lparr>pages = [[], []], metadata_title = Some (ascii ''Report'')\<rparr>"
          "\<lambda>t. False" id "\<lambda>x. x"]
  by simp

text \<open>
  Claim C6: the header/footer filter removes every instance of a line repeated at the same
  height on most pages. The code does not do this: \<open>drop_repeating_headers\<close> returns its
  argument. The same header at the same height on each of three pages is kept three
  times.
\<close>

theorem repeated_header_kept:
  "drop_repeating_headers [running_header 1, running_header 2, running_header 3]
     = [running_header 1, running_header 2, running_header 3]"
  by (simp add: drop_repeating_headers_def)

text \<open>
  Claim C7: \<open>is_boldish\<close> holds if and only if a word's font name contains "bold" or
  "black" in any letter case. The code does not do this: it looks for the spellings
  "Bold", "bold" and "Black" only. A line of one word in the font "Arial-black" has the
  font name, which contains "black", and is not boldish.
\<close>

theorem lowercase_black_not_boldish:
  "substr_in (ascii ''black'') (ascii ''Arial-black'')
   \<and> map_option (map font_names) (extract_lines isupper [black_word] 1)
       = Some [[ascii ''Arial-black'']]
   \<and> map_option (map is_boldish) (extract_lines isupper [black_word] 1) = Some [False]"
  by (simp add: extract_lines_def black_word_def build_line_def py_min_def py_max_def Let_def
      boldish_def ascii_def)

text \<open>
  Claim C8, as amended: when the text matches the numbering pattern and the matched
  numeral contains a dot, the numeral is a dotted decimal one and the numbering level is
  the number of its dots plus one, capped at 3; when it contains no dot it is a bare
  integer, a Roman numeral or a CJK chapter marker and the level is 1. In the text the
  numeral is followed by a backslash and the letter b.
\<close>

theorem numbering_level_depth:
  assumes "NUM_PAT_match text = Some num"
  shows "numbering_level text
           = Some (if 46 \<in> set num then min (count_list num 46 + 1) 3 else 1)
         \<and> (46 \<in> set num \<longrightarrow> num \<in> rx_lang decimal_rx)
         \<and> (46 \<notin> set num \<longrightarrow>
              num \<in> rx_lang (Plus digit) \<or> num \<in> rx_lang roman_rx \<or> num \<in> rx_lang cjk_rx)
         \<and> (\<exists>rest. text = num @ 92 # 98 # rest)"
proof -
  from NUM_PAT_match_sound[OF assms]
  have l: "num \<in> rx_lang decimal_rx \<or> num \<in> rx_lang roman_rx \<or> num \<in> rx_lang cjk_rx"
    and t: "\<exists>rest. text = num @ 92 # 98 # rest"
    by (auto simp: num_rx_def)
  have "numbering_level text = Some (if 46 \<in> set num then min (count_list num 46 + 1) 3 else 1)"
    by (simp add: numbering_level_def assms)
  moreover have "46 \<in> set num \<longrightarrow> num \<in> rx_lang decimal_rx"
    using l roman_no_dot cjk_no_dot by blast
  moreover have "46 \<notin> set num \<longrightarrow>
      num \<in> rx_lang (Plus digit) \<or> num \<in> rx_lang roman_rx \<or> num \<in> rx_lang cjk_rx"
    using l decimal_no_dot by blast
  ultimately show ?thesis using t by blast
qed

text \<open>
  The numerals 1.2.3.4, 1.2, IV and the CJK marker for chapter three, each followed by
  the backslash and b the pattern asks for: levels 3, 2, 1 and 1.
\<close>

theorem numbering_level_depth_witness:
  "NUM_PAT_match (ascii ''1.2.3.4'' @ [92, 98] @ ascii '' Scope'') = Some (ascii ''1.2.3.4'')
   \<and> numbering_level (ascii ''1.2.3.4'' @ [92, 98] @ ascii '' Scope'') = Some 3
   \<and> NUM_PAT_match (ascii ''1.2'' @ [92, 98]) = Some (ascii ''1.2'')
   \<and> numbering_level (ascii ''1.2'' @ [92, 98]) = Some 2
   \<and> NUM_PAT_match (ascii ''IV'' @ [92, 98]) = Some (ascii ''IV'')
   \<and> numbering_level (ascii ''IV'' @ [92, 98]) = Some 1
   \<and> NUM_PAT_match ([31532, 19977, 31456, 92, 98]) = Some [31532, 19977, 31456]
   \<and> numbering_level ([31532, 19977, 31456, 92, 98]) = Some 1"
proof -
  have a: "NUM_PAT_match (ascii ''1.2.3.4'' @ [92, 98] @ ascii '' Scope'') = Some (ascii ''1.2.3.4'')"
    by (simp add: rx_defs)
  have b: "NUM_PAT_match (ascii ''1.2'' @ [92, 98]) = Some (ascii ''1.2'')"
    by (simp add: rx_defs)
  have c: "NUM_PAT_match (ascii ''IV'' @ [92, 98]) = Some (ascii ''IV'')"
    by (simp add: rx_defs)
  have d: "NUM_PAT_match ([31532, 19977, 31456, 92, 98]) = Some [31532, 19977, 31456]"
    by (simp add: rx_defs)
  show ?thesis
    using numbering_level_depth[OF a, THEN conjunct1] numbering_level_depth[OF b, THEN conjunct1]
      numbering_level_depth[OF c, THEN conjunct1] numbering_level_depth[OF d, THEN conjunct1]
      a b c d
    by (simp add: ascii_def)
qed

text \<open>
  Claim C8 as it was stated, the level being the number of dots, fails: the numeral 1.2
  has one dot and level 2.
\<close>

theorem numbering_level_not_dot_count:
  "NUM_PAT_match (ascii ''1.2'' @ [92, 98] @ ascii '' Scope'') = Some (ascii ''1.2'')
   \<and> count_list (ascii ''1.2'') 46 = 1
   \<and> numbering_level (ascii ''1.2'' @ [92, 98] @ ascii '' Scope'') = Some 2
   \<and> numbering_level (ascii ''1.2'' @ [92, 98] @ ascii '' Scope'')
       \<noteq> Some (min (count_list (ascii ''1.2'') 46) 3)"
  by (simp add: numbering_level_def rx_defs)

text \<open>
  Claim C9: when \<open>ys\<close> is a permutation of \<open>xs\<close>, \<open>score_lines\<close> returns on both, and
  both runs give every line the score \<open>line_score\<close> computes from the line itself and
  the same three statistics (median and deviation of the font sizes, median of the
  positive leadings); the minimum \<open>x0\<close> is computed and not used.
\<close>

theorem score_lines_order_independent:
  assumes "mset ys = mset xs"
  shows "\<exists>median_size stdev_size median_leading.
           score_lines xs
             = Some (map (\<lambda>l. with_score l (line_score median_size stdev_size median_leading l)) xs)
         \<and> score_lines ys
             = Some (map (\<lambda>l. with_score l (line_score median_size stdev_size median_leading l)) ys)"
proof (cases "xs = []")
  case True
  with assms have "ys = []" by simp
  with True show ?thesis by (simp add: score_lines_def)
next
  case False
  with assms have ys: "ys \<noteq> []" by auto
  have F: "mset (size_data ys) = mset (size_data xs)" using assms by (rule size_data_mset)
  have L: "mset (leading_data ys) = mset (leading_data xs)" using assms by (rule leading_data_mset)
  have lenF: "length (size_data ys) = length (size_data xs)" using F by (rule mset_eq_length)
  have Lnil: "leading_data ys = [] \<longleftrightarrow> leading_data xs = []" using L by (metis mset_zero_iff)
  obtain ms where ms: "median (size_data xs) = Some ms"
    using median_Some[OF size_data_nonempty] by blast
  obtain sd where sd: "(if 1 < length (size_data xs) then stdev (size_data xs) else Some 1) = Some sd"
    using stdev_Some[of "size_data xs"] by (cases "1 < length (size_data xs)") auto
  obtain ml where ml: "(if leading_data xs \<noteq> [] then median (leading_data xs) else Some 0) = Some ml"
    using median_Some[of "leading_data xs"] by (cases "leading_data xs = []") auto
  obtain mx where mx: "py_min (map x0 xs) = Some mx"
    using py_min_Some[of "map x0 xs"] False by auto
  obtain my where my: "py_min (map x0 ys) = Some my"
    using py_min_Some[of "map x0 ys"] ys by auto
  have ms': "median (size_data ys) = Some ms" using median_mset[OF F] ms by simp
  have sd': "(if 1 < length (size_data ys) then stdev (size_data ys) else Some 1) = Some sd"
    by (simp only: stdev_mset[OF F] lenF sd)
  have ml': "(if leading_data ys \<noteq> [] then median (leading_data ys) else Some 0) = Some ml"
    by (simp only: median_mset[OF L] Lnil ml)
  have "score_lines xs = Some (map (\<lambda>l. with_score l (line_score ms sd ml l)) xs)"
    by (simp only: score_lines_alt False if_False ms sd ml mx bind.bind_lunit)
  moreover have "score_lines ys = Some (map (\<lambda>l. with_score l (line_score ms sd ml l)) ys)"
    by (simp only: score_lines_alt ys if_False ms' sd' ml' my bind.bind_lunit)
  ultimately show ?thesis by blast
qed

text \<open>The numbered heading and a running header, in both orders.\<close>

theorem score_lines_order_independent_witness:
  "mset [running_header 2, intro_line] = mset [intro_line, running_header 2]
   \<and> (\<exists>median_size stdev_size median_leading.
         score_lines [intro_line, running_header 2]
           = Some (map (\<lambda>l. with_score l (line_score median_size stdev_size median_leading l))
                     [intro_line, running_header 2])
       \<and> score_lines [running_header 2, intro_line]
           = Some (map (\<lambda>l. with_score l (line_score median_size stdev_size median_leading l))
                     [running_header 2, intro_line]))"
  using score_lines_order_independent[of "[running_header 2, intro_line]"
          "[intro_line, running_header 2]"]
  by simp

text \<open>
  Claim C10: for a nonempty candidate list \<open>assign_levels\<close> returns an outline that is
  nonempty, has only the levels H1, H2 and H3, and has an entry of level H1.
\<close>

theorem assign_levels_outline:
  assumes "cands \<noteq> []"
  shows "\<exists>out. assign_levels cands = Some out \<and> out \<noteq> []
           \<and> (\<forall>e\<in>set out. o_level e \<in> {ascii ''H1'', ascii ''H2'', ascii ''H3''})
           \<and> (\<exists>e\<in>set out. o_level e = ascii ''H1'')"
proof -
  from assms obtain l ls where c: "cands = l # ls" by (cases cands) auto
  from emitted_Some[OF assms] obtain th where em: "emitted cands = Some (emit th [] {} cands)" ..
  let ?em = "emit th [] {} cands"
  have ne: "?em \<noteq> []" unfolding c by (rule emit_first_nonempty)
  have lv: "\<forall>e\<in>set ?em. o_level e \<in> {ascii ''H1'', ascii ''H2'', ascii ''H3''}"
    by (rule emit_levels) simp
  note g = guarantee_h1_props[OF ne lv]
  let ?out = "demote_isolated [] (guarantee_h1 ?em)"
  have "assign_levels cands = Some ?out" using assms em by (simp add: assign_levels_def)
  moreover have "?out \<noteq> []" using g(1) demote_length[of "[]" "guarantee_h1 ?em"] by auto
  moreover have "\<forall>e\<in>set ?out. o_level e \<in> {ascii ''H1'', ascii ''H2'', ascii ''H3''}"
    by (rule demote_levels) (use g(2) in simp)
  moreover have "\<exists>e\<in>set ?out. o_level e = ascii ''H1''"
    by (rule demote_keeps_h1) (use g(3) in simp)
  ultimately show ?thesis by blast
qed

text \<open>A single candidate.\<close>

theorem assign_levels_outline_witness:
  "[sline 1 (ascii ''Scope'') 10 100 5] \<noteq> []
   \<and> (\<exists>out. assign_levels [sline 1 (ascii ''Scope'') 10 100 5] = Some out \<and> out \<noteq> []
          \<and> (\<forall>e\<in>set out. o_level e \<in> {ascii ''H1'', ascii ''H2'', ascii ''H3''})
          \<and> (\<exists>e\<in>set out. o_level e = ascii ''H1''))"
  using assign_levels_outline[of "[sline 1 (ascii ''Scope'') 10 100 5]"]
  by simp

end
